theory Spec2Isabelle
  imports Complex_Main "HOL-Library.Char_ord" "HOL-Library.List_Lexorder"
    "HOL-Library.Product_Lexorder" "HOL-Library.Multiset"
begin

section \<open>Data model\<close>

text \<open>
  The three programs of the repository share one document shape, the trip written by
  \<^verbatim>\<open>data-generator/generate.py\<close>, read by \<^verbatim>\<open>spark-jobs/analytics.py\<close> and by
  \<^verbatim>\<open>api/main.py\<close>. Python's \<^verbatim>\<open>float\<close> values (distance, price, the averages) are
  modelled as rationals. The arithmetic is exact here, where the engines add and divide
  binary doubles: their sum can miss the exact one in the last place, and an average
  rounded to two decimals can then differ by 0.01. The theorems below evaluate an average
  only at distances that are exact in binary. Strings are byte strings, compared
  lexicographically byte by byte, as MongoDB's default collation and Spark both do.
\<close>

record datetime =
  dt_year :: nat
  dt_month :: nat
  dt_day :: nat
  dt_hour :: nat
  dt_minute :: nat
  dt_second :: nat
  dt_microsecond :: nat

record trip =
  trip_id :: string
  user_id :: string
  city :: string
  zone_start :: string
  zone_end :: string
  distance_km :: rat
  price_eur :: rat
  timestamp :: datetime
  hour :: nat
  day_of_week :: string
  date :: string

text \<open>
  What \<^verbatim>\<open>json.load\<close> returns and what an endpoint hands to the framework: a JSON
  value. An object keeps its fields as an association list in the order they are written.
\<close>

datatype json =
    JNull
  | JBool bool
  | JInt int
  | JNum rat
  | JStr string
  | JArr "json list"
  | JObj "(string \<times> json) list"

text \<open>Python's truth value of a loaded JSON value, as tested by \<^verbatim>\<open>if spark_data:\<close>.\<close>

fun truthy :: "json \<Rightarrow> bool" where
  "truthy JNull = False"
| "truthy (JBool b) = b"
| "truthy (JInt i) = (i \<noteq> 0)"
| "truthy (JNum q) = (q \<noteq> 0)"
| "truthy (JStr s) = (s \<noteq> [])"
| "truthy (JArr xs) = (xs \<noteq> [])"
| "truthy (JObj fs) = (fs \<noteq> [])"

text \<open>
  The exceptions that can leave an endpoint: \<^verbatim>\<open>open\<close> failing on a file that exists,
  \<^verbatim>\<open>json.load\<close> failing on its content, \<^verbatim>\<open>spark_data[:limit]\<close> on a value that
  has no slices, the driver failing to encode a pipeline, and the aggregation server
  refusing one.
\<close>

datatype error = OSError | JSONDecodeError | SubscriptError | OverflowError | OperationFailure

section \<open>The calendar functions the generator calls\<close>

text \<open>
  \<^verbatim>\<open>ts.strftime("%Y-%m-%d")\<close>, \<^verbatim>\<open>ts.strftime("%A")\<close> and \<^verbatim>\<open>ts.hour\<close>, following
  CPython's \<^verbatim>\<open>datetime\<close> module (proleptic Gregorian ordinal, Monday is weekday 0, the
  English day names of the C locale).
\<close>

definition digit_char :: "nat \<Rightarrow> char" where
  "digit_char n = ''0123456789'' ! (n mod 10)"

fun digits :: "nat \<Rightarrow> string" where
  "digits n = (if n < 10 then [digit_char n] else digits (n div 10) @ [digit_char n])"

definition zero_pad :: "nat \<Rightarrow> nat \<Rightarrow> string" where
  "zero_pad w n = replicate (w - length (digits n)) (CHR ''0'') @ digits n"

text \<open>
  \<^verbatim>\<open>%m\<close> and \<^verbatim>\<open>%d\<close> are padded to two digits. \<^verbatim>\<open>%Y\<close> is the C library's:
  glibc writes the year as it is, without padding, which shows only for years below 1000;
  the generator's timestamps lie within a year of the clock reading.
\<close>

definition strftime_Ymd :: "datetime \<Rightarrow> string" where
  "strftime_Ymd ts =
     digits (dt_year ts) @ ''-'' @ zero_pad 2 (dt_month ts) @ ''-'' @ zero_pad 2 (dt_day ts)"

definition is_leap :: "nat \<Rightarrow> bool" where
  "is_leap y = (y mod 4 = 0 \<and> (y mod 100 \<noteq> 0 \<or> y mod 400 = 0))"

definition days_before_year :: "nat \<Rightarrow> nat" where
  "days_before_year year = (let y = year - 1 in y * 365 + y div 4 - y div 100 + y div 400)"

definition days_before_month :: "nat \<Rightarrow> nat \<Rightarrow> nat" where
  "days_before_month year month =
     [0, 0, 31, 59, 90, 120, 151, 181, 212, 243, 273, 304, 334] ! month
       + (if month > 2 \<and> is_leap year then 1 else 0)"

definition days_in_month :: "nat \<Rightarrow> nat \<Rightarrow> nat" where
  "days_in_month year month =
     (if month = 2 \<and> is_leap year then 29
      else [0, 31, 28, 31, 30, 31, 30, 31, 31, 30, 31, 30, 31] ! month)"

definition toordinal :: "datetime \<Rightarrow> nat" where
  "toordinal ts = days_before_year (dt_year ts) + days_before_month (dt_year ts) (dt_month ts) + dt_day ts"

definition weekday :: "datetime \<Rightarrow> nat" where
  "weekday ts = (toordinal ts + 6) mod 7"

definition strftime_A :: "datetime \<Rightarrow> string" where
  "strftime_A ts =
     [''Monday'', ''Tuesday'', ''Wednesday'', ''Thursday'', ''Friday'', ''Saturday'', ''Sunday'']
       ! weekday ts"

text \<open>The values a Python \<^verbatim>\<open>datetime\<close> can hold.\<close>

definition valid_datetime :: "datetime \<Rightarrow> bool" where
  "valid_datetime ts =
     (1 \<le> dt_year ts \<and> dt_year ts \<le> 9999 \<and> 1 \<le> dt_month ts \<and> dt_month ts \<le> 12
      \<and> 1 \<le> dt_day ts \<and> dt_day ts \<le> days_in_month (dt_year ts) (dt_month ts)
      \<and> dt_hour ts < 24 \<and> dt_minute ts < 60 \<and> dt_second ts < 60
      \<and> dt_microsecond ts < 1000000)"

section \<open>The ingestion pipeline (data-generator/generate.py)\<close>

text \<open>
  One iteration of the loop draws a timestamp (the clock reading minus a random offset),
  a city, two zones, a distance, a price and two identifiers. The drawn values of
  iteration \<open>i\<close> are the input \<open>gen i\<close> of the model.
\<close>

record draw =
  d_ts :: datetime
  d_city :: string
  d_zone_start :: string
  d_zone_end :: string
  d_distance :: rat
  d_price :: rat
  d_trip_id :: string
  d_user_id :: string

text \<open>
  The stores. The MongoDB collection is the sequence of its bulk writes, each one call of
  \<^verbatim>\<open>insert_many\<close>; its documents are their concatenation. The two Cassandra counter
  tables map a primary key to its counter; a row that was never updated is absent, and
  \<^verbatim>\<open>SET trip_count = trip_count + 1\<close> on an absent row counts from zero.
\<close>

record stores =
  collection :: "trip list list"
  trips_by_hour :: "string \<times> string \<times> nat \<rightharpoonup> int"
  trips_by_zone :: "string \<times> string \<rightharpoonup> int"
  batch_docs :: "trip list"

definition documents :: "stores \<Rightarrow> trip list" where
  "documents s = concat (collection s)"

definition counter_value :: "('k \<rightharpoonup> int) \<Rightarrow> 'k \<Rightarrow> int" where
  "counter_value tbl k = (case tbl k of None \<Rightarrow> 0 | Some c \<Rightarrow> c)"

definition increment :: "('k \<rightharpoonup> int) \<Rightarrow> 'k \<Rightarrow> ('k \<rightharpoonup> int)" where
  "increment tbl k = tbl(k \<mapsto> counter_value tbl k + 1)"

definition insert_many :: "trip list \<Rightarrow> trip list list \<Rightarrow> trip list list" where
  "insert_many docs coll = coll @ [docs]"

text \<open>After \<^verbatim>\<open>collection.drop()\<close> and the two \<^verbatim>\<open>TRUNCATE\<close> statements.\<close>

definition initial :: stores where
  "initial = \<lparr>collection = [], trips_by_hour = Map.empty, trips_by_zone = Map.empty,
              batch_docs = []\<rparr>"

definition make_trip :: "draw \<Rightarrow> trip" where
  "make_trip d =
     (let ts = d_ts d; date_str = strftime_Ymd ts in
      \<lparr>trip_id = d_trip_id d, user_id = d_user_id d, city = d_city d,
       zone_start = d_zone_start d, zone_end = d_zone_end d,
       distance_km = d_distance d, price_eur = d_price d,
       timestamp = ts, hour = dt_hour ts, day_of_week = strftime_A ts, date = date_str\<rparr>)"

text \<open>The body of \<^verbatim>\<open>for i in range(TOTAL_TRIPS)\<close>, with batch size \<open>B\<close>.\<close>

definition loop_body :: "nat \<Rightarrow> (nat \<Rightarrow> draw) \<Rightarrow> stores \<Rightarrow> nat \<Rightarrow> stores" where
  "loop_body B gen s i =
     (let d = gen i;
          ts = d_ts d;
          date_str = strftime_Ymd ts;
          s1 = s\<lparr>batch_docs := batch_docs s @ [make_trip d]\<rparr>;
          s2 = s1\<lparr>trips_by_hour := increment (trips_by_hour s1) (d_city d, date_str, dt_hour ts)\<rparr>;
          s3 = s2\<lparr>trips_by_zone := increment (trips_by_zone s2) (d_city d, d_zone_start d)\<rparr>
      in if length (batch_docs s3) = B
         then s3\<lparr>collection := insert_many (batch_docs s3) (collection s3), batch_docs := []\<rparr>
         else s3)"

text \<open>The whole run for a target count \<open>N\<close>: the loop, then the write of the remainder.\<close>

definition loop :: "(nat \<Rightarrow> draw) \<Rightarrow> nat \<Rightarrow> nat \<Rightarrow> stores" where
  "loop gen N B = foldl (loop_body B gen) initial [0..<N]"

definition generate :: "(nat \<Rightarrow> draw) \<Rightarrow> nat \<Rightarrow> nat \<Rightarrow> stores" where
  "generate gen N B =
     (let s = loop gen N B
      in if batch_docs s \<noteq> []
         then s\<lparr>collection := insert_many (batch_docs s) (collection s)\<rparr>
         else s)"

section \<open>Aggregation stages\<close>

text \<open>
  Both engines group, count, average, sort and cut. Neither promises an order of the
  groups or of rows with equal sort keys. The daily and the hourly aggregate sort on the
  group key, which no two rows share. For the top zones the engine's order among equal
  counts is a parameter of the model, introduced below. For the other aggregates the
  model emits groups in the order their keys are first seen and sorts stably; no theorem
  below states an order among their rows with equal sort keys.
\<close>

fun first_seen :: "'k list \<Rightarrow> 'k list" where
  "first_seen [] = []"
| "first_seen (k # ks) = k # filter (\<lambda>k'. k' \<noteq> k) (first_seen ks)"

definition group_by :: "('a \<Rightarrow> 'k) \<Rightarrow> 'a list \<Rightarrow> ('k \<times> 'a list) list" where
  "group_by key xs = map (\<lambda>k. (k, filter (\<lambda>x. key x = k) xs)) (first_seen (map key xs))"

text \<open>\<^verbatim>\<open>count("*")\<close> in Spark, \<^verbatim>\<open>{"$sum": 1}\<close> in MongoDB.\<close>

definition group_count :: "('a \<Rightarrow> 'k) \<Rightarrow> 'a list \<Rightarrow> ('k \<times> nat) list" where
  "group_count key xs = map (\<lambda>(k, members). (k, length members)) (group_by key xs)"

definition mean :: "rat list \<Rightarrow> rat" where
  "mean qs = sum_list qs / of_nat (length qs)"

text \<open>\<^verbatim>\<open>avg("distance_km")\<close> with \<^verbatim>\<open>count("*")\<close>; \<^verbatim>\<open>{"$avg": "$distance_km"}\<close> with the count.\<close>

definition group_avg_count :: "('a \<Rightarrow> 'k) \<Rightarrow> ('a \<Rightarrow> rat) \<Rightarrow> 'a list \<Rightarrow> ('k \<times> rat \<times> nat) list" where
  "group_avg_count key val xs =
     map (\<lambda>(k, members). (k, mean (map val members), length members)) (group_by key xs)"

definition order_by :: "('a \<Rightarrow> 'k::linorder) \<Rightarrow> 'a list \<Rightarrow> 'a list" where
  "order_by key xs = sort_key key xs"

definition order_by_desc :: "('a \<Rightarrow> 'k::linorder) \<Rightarrow> 'a list \<Rightarrow> 'a list" where
  "order_by_desc key xs = rev (sort_key key (rev xs))"

text \<open>
  Rounding to two decimals: Spark's \<^verbatim>\<open>round\<close> rounds half away from zero, MongoDB's
  \<^verbatim>\<open>$round\<close> rounds half to even.
\<close>

definition spark_round2 :: "rat \<Rightarrow> rat" where
  "spark_round2 q = sgn q * of_int \<lfloor>\<bar>q\<bar> * 100 + 1 / 2\<rfloor> / 100"

definition mongo_round2 :: "rat \<Rightarrow> rat" where
  "mongo_round2 q =
     (let s = q * 100; f = \<lfloor>s\<rfloor>; r = s - of_int f
      in of_int (if r < 1 / 2 then f else if 1 / 2 < r then f + 1
                 else if even f then f else f + 1) / 100)"

text \<open>
  The \<^verbatim>\<open>$limit\<close> stage takes a positive 64-bit integer: the driver cannot encode an
  integer outside the signed 64-bit range, and the server refuses a limit that is not
  positive.
\<close>

definition limit_stage :: "int \<Rightarrow> 'a list \<Rightarrow> error + 'a list" where
  "limit_stage n rows =
     (if n < - (2 ^ 63) \<or> 2 ^ 63 \<le> n then Inl OverflowError
      else if n \<le> 0 then Inl OperationFailure
      else Inr (take (nat n) rows))"

text \<open>
  The top-zones pipelines sort on the trip count and name no second key:
  \<^verbatim>\<open>orderBy("trip_count", ascending=False)\<close> in the batch job,
  \<^verbatim>\<open>{"$sort": {"trip_count": -1}}\<close> in the resolver. Which of two zones with the
  same count comes first is settled inside the engine, by the partitions of the shuffle
  in Spark and by the group table in MongoDB, and not by the program. The model takes the
  engine's order as a parameter, a rank on the zone names: zones with the same count come
  out by ascending rank, and zones that also share the rank in the order their groups are
  first seen. Every order of the rows that is descending in the count is the one of some
  rank.
\<close>

type_synonym tie_order = "string \<Rightarrow> nat"

definition engine_order :: "tie_order \<Rightarrow> (string \<times> nat) list \<Rightarrow> (string \<times> nat) list" where
  "engine_order ties groups = sort_key (\<lambda>r. ties (fst r)) groups"

text \<open>The rank that numbers the keys in the order of a given list.\<close>

definition position :: "'k list \<Rightarrow> 'k \<Rightarrow> nat" where
  "position ks k = length (takeWhile (\<lambda>k'. k' \<noteq> k) ks)"

section \<open>The batch aggregator (spark-jobs/analytics.py)\<close>

text \<open>The five data frames over the whole collection \<open>df\<close>, and the lists written as JSON.\<close>

definition daily :: "trip list \<Rightarrow> (string \<times> nat) list" where
  "daily df = order_by fst (group_count date df)"

definition daily_list :: "trip list \<Rightarrow> json" where
  "daily_list df =
     JArr (map (\<lambda>(d, n). JObj [(''date'', JStr d), (''trip_count'', JInt (int n))]) (daily df))"

definition avg_dist :: "trip list \<Rightarrow> (string \<times> rat \<times> nat) list" where
  "avg_dist df =
     order_by_desc (\<lambda>(c, a, n). a)
       (map (\<lambda>(c, a, n). (c, spark_round2 a, n)) (group_avg_count city distance_km df))"

definition avg_list :: "trip list \<Rightarrow> json" where
  "avg_list df =
     JArr (map (\<lambda>(c, a, n). JObj [(''city'', JStr c), (''avg_distance'', JNum a),
                                   (''trip_count'', JInt (int n))]) (avg_dist df))"

definition rush :: "trip list \<Rightarrow> (nat \<times> nat) list" where
  "rush df = order_by fst (group_count hour df)"

definition rush_list :: "trip list \<Rightarrow> json" where
  "rush_list df =
     JArr (map (\<lambda>(h, n). JObj [(''hour'', JInt (int h)), (''trip_count'', JInt (int n))]) (rush df))"

definition spark_top_zones :: "tie_order \<Rightarrow> trip list \<Rightarrow> (string \<times> nat) list" where
  "spark_top_zones ties df = order_by_desc snd (engine_order ties (group_count zone_start df))"

definition zones_list :: "tie_order \<Rightarrow> trip list \<Rightarrow> json" where
  "zones_list ties df =
     JArr (map (\<lambda>(z, n). JObj [(''zone'', JStr z), (''trip_count'', JInt (int n))])
       (spark_top_zones ties df))"

text \<open>
  \<^verbatim>\<open>orderBy("city", "trip_count", ascending=False)\<close>: the one flag applies to both
  columns, so both are descending.
\<close>

definition by_day :: "trip list \<Rightarrow> ((string \<times> string) \<times> nat) list" where
  "by_day df =
     order_by_desc (\<lambda>((c, d), n). (c, n)) (group_count (\<lambda>t. (city t, day_of_week t)) df)"

definition day_list :: "trip list \<Rightarrow> json" where
  "day_list df =
     JArr (map (\<lambda>((c, d), n). JObj [(''city'', JStr c), (''day_of_week'', JStr d),
                                     (''trip_count'', JInt (int n))]) (by_day df))"

text \<open>
  The artifact directory: a file is absent, cannot be opened, does not parse, or parses to
  a JSON value. One run of the job over \<open>df\<close> writes the five files; \<open>ties\<close> is
  Spark's order of zones with equal counts in that run.
\<close>

datatype file_state = Absent | Unreadable | Malformed | Parsed json

type_synonym artifact_store = "string \<Rightarrow> file_state"

definition run_analytics :: "tie_order \<Rightarrow> trip list \<Rightarrow> artifact_store \<Rightarrow> artifact_store" where
  "run_analytics ties df fs =
     fs(''daily.json'' := Parsed (daily_list df),
        ''avg_distance.json'' := Parsed (avg_list df),
        ''rush_hours.json'' := Parsed (rush_list df),
        ''top_zones.json'' := Parsed (zones_list ties df),
        ''by_day_of_week.json'' := Parsed (day_list df))"

definition no_artifacts :: artifact_store where
  "no_artifacts = (\<lambda>filename. Absent)"

section \<open>The query resolver (api/main.py)\<close>

definition load_spark_result :: "artifact_store \<Rightarrow> string \<Rightarrow> error + json" where
  "load_spark_result fs filename =
     (case fs filename of
        Absent \<Rightarrow> Inr JNull
      | Unreadable \<Rightarrow> Inl OSError
      | Malformed \<Rightarrow> Inl JSONDecodeError
      | Parsed v \<Rightarrow> Inr v)"

text \<open>
  A query parameter declared \<^verbatim>\<open>Query(None)\<close> is \<open>None\<close> when the request leaves it
  out; \<^verbatim>\<open>if city:\<close> is Python's truth value of it, false for \<open>None\<close> and for the
  empty string.
\<close>

definition city_given :: "string option \<Rightarrow> bool" where
  "city_given c = (case c of None \<Rightarrow> False | Some s \<Rightarrow> s \<noteq> [])"

text \<open>The \<^verbatim>\<open>$match\<close> stage on the city.\<close>

definition match_city :: "string option \<Rightarrow> trip list \<Rightarrow> trip list" where
  "match_city c db = filter (\<lambda>t. Some (city t) = c) db"

text \<open>
  The \<^verbatim>\<open>$project\<close> stages, one per family. A row lists its fields in the order the
  stage names them; the order of the fields of a JSON object carries no meaning.
\<close>

definition project_daily :: "string \<times> nat \<Rightarrow> json" where
  "project_daily r = JObj [(''date'', JStr (fst r)), (''trip_count'', JInt (int (snd r)))]"

definition project_hourly :: "nat \<times> nat \<Rightarrow> json" where
  "project_hourly r = JObj [(''hour'', JInt (int (fst r))), (''trip_count'', JInt (int (snd r)))]"

definition project_cities :: "string \<times> rat \<times> nat \<Rightarrow> json" where
  "project_cities r =
     (case r of (c, a, n) \<Rightarrow>
        JObj [(''city'', JStr c), (''avg_distance'', JNum (mongo_round2 a)),
              (''trip_count'', JInt (int n))])"

definition project_zones :: "string \<times> nat \<Rightarrow> json" where
  "project_zones r = JObj [(''zone'', JStr (fst r)), (''trip_count'', JInt (int (snd r)))]"

definition project_weekday :: "(string \<times> string) \<times> nat \<Rightarrow> json" where
  "project_weekday r =
     (case r of ((c, d), n) \<Rightarrow>
        JObj [(''city'', JStr c), (''day_of_week'', JStr d), (''trip_count'', JInt (int n))])"

definition daily_stats :: "artifact_store \<Rightarrow> trip list \<Rightarrow> string option \<Rightarrow> error + json" where
  "daily_stats fs db c =
     (case load_spark_result fs ''daily.json'' of
        Inl e \<Rightarrow> Inl e
      | Inr spark_data \<Rightarrow>
          if truthy spark_data then
            (if city_given c
             then Inr (JArr (map project_daily
                              (order_by fst (group_count date (match_city c db)))))
             else Inr spark_data)
          else
            (let matched = (if city_given c then match_city c db else db)
             in Inr (JArr (map project_daily (order_by fst (group_count date matched))))))"

definition hourly_stats :: "artifact_store \<Rightarrow> trip list \<Rightarrow> string option \<Rightarrow> error + json" where
  "hourly_stats fs db c =
     (case load_spark_result fs ''rush_hours.json'' of
        Inl e \<Rightarrow> Inl e
      | Inr spark_data \<Rightarrow>
          if truthy spark_data \<and> \<not> city_given c then Inr spark_data
          else
            (let matched = (if city_given c then match_city c db else db)
             in Inr (JArr (map project_hourly (order_by fst (group_count hour matched))))))"

definition cities_stats :: "artifact_store \<Rightarrow> trip list \<Rightarrow> error + json" where
  "cities_stats fs db =
     (case load_spark_result fs ''avg_distance.json'' of
        Inl e \<Rightarrow> Inl e
      | Inr spark_data \<Rightarrow>
          if truthy spark_data then Inr spark_data
          else Inr (JArr (map project_cities
                 (order_by_desc (\<lambda>(c, a, n). n) (group_avg_count city distance_km db)))))"

text \<open>
  Python's \<^verbatim>\<open>xs[:limit]\<close>: a negative bound counts from the end. Lists and strings
  have slices; the other JSON values raise.
\<close>

definition slice_to :: "'a list \<Rightarrow> int \<Rightarrow> 'a list" where
  "slice_to xs limit =
     (if limit < 0 then take (nat (int (length xs) + limit)) xs else take (nat limit) xs)"

fun py_slice :: "json \<Rightarrow> int \<Rightarrow> error + json" where
  "py_slice (JArr xs) limit = Inr (JArr (slice_to xs limit))"
| "py_slice (JStr s) limit = Inr (JStr (slice_to s limit))"
| "py_slice v limit = Inl SubscriptError"

text \<open>
  \<^verbatim>\<open>limit: int = Query(10)\<close>: the request's value, 10 when it gives none. \<open>ties\<close> is
  MongoDB's order of zones with equal counts in the aggregation of this request.
\<close>

definition top_zones :: "tie_order \<Rightarrow> artifact_store \<Rightarrow> trip list \<Rightarrow> int option
    \<Rightarrow> error + json" where
  "top_zones ties fs db limit_param =
     (let limit = (case limit_param of None \<Rightarrow> 10 | Some l \<Rightarrow> l) in
      case load_spark_result fs ''top_zones.json'' of
        Inl e \<Rightarrow> Inl e
      | Inr spark_data \<Rightarrow>
          if truthy spark_data then py_slice spark_data limit
          else
            (case limit_stage limit
                    (order_by_desc snd (engine_order ties (group_count zone_start db))) of
               Inl e \<Rightarrow> Inl e
             | Inr rows \<Rightarrow> Inr (JArr (map project_zones rows))))"

definition weekday_stats :: "artifact_store \<Rightarrow> trip list \<Rightarrow> error + json" where
  "weekday_stats fs db =
     (case load_spark_result fs ''by_day_of_week.json'' of
        Inl e \<Rightarrow> Inl e
      | Inr spark_data \<Rightarrow>
          if truthy spark_data then Inr spark_data
          else Inr (JArr (map project_weekday
                 (group_count (\<lambda>t. (city t, day_of_week t)) db))))"

section \<open>Reading rows\<close>

text \<open>The rows of a response and the integer held by a field of a row.\<close>

fun is_object :: "json \<Rightarrow> bool" where
  "is_object (JObj fs) = True"
| "is_object v = False"

fun rows_of :: "json \<Rightarrow> json list" where
  "rows_of (JArr rs) = rs"
| "rows_of v = []"

fun field :: "string \<Rightarrow> json \<Rightarrow> json" where
  "field k (JObj fs) = (case map_of fs k of Some v \<Rightarrow> v | None \<Rightarrow> JNull)"
| "field k v = JNull"

fun int_of :: "json \<Rightarrow> int" where
  "int_of (JInt i) = i"
| "int_of v = 0"

definition trip_counts :: "json \<Rightarrow> int list" where
  "trip_counts response = map (\<lambda>r. int_of (field ''trip_count'' r)) (rows_of response)"

text \<open>
  The five aggregate families, their artifact files and their routes. A route passes on
  the parameters its handler declares and drops the others; \<open>ties\<close> is the order
  MongoDB takes among equal counts, which only the top-zones aggregation meets.
\<close>

datatype family = Daily | Hourly | Cities | TopZones | Weekday

fun artifact_name :: "family \<Rightarrow> string" where
  "artifact_name Daily = ''daily.json''"
| "artifact_name Hourly = ''rush_hours.json''"
| "artifact_name Cities = ''avg_distance.json''"
| "artifact_name TopZones = ''top_zones.json''"
| "artifact_name Weekday = ''by_day_of_week.json''"

fun resolve :: "tie_order \<Rightarrow> family \<Rightarrow> artifact_store \<Rightarrow> trip list \<Rightarrow> string option
    \<Rightarrow> int option \<Rightarrow> error + json" where
  "resolve ties Daily fs db c l = daily_stats fs db c"
| "resolve ties Hourly fs db c l = hourly_stats fs db c"
| "resolve ties Cities fs db c l = cities_stats fs db"
| "resolve ties TopZones fs db c l = top_zones ties fs db l"
| "resolve ties Weekday fs db c l = weekday_stats fs db"

text \<open>
  The row schema of each family as the interface table of the specification gives it:
  the field names, each with the kind of JSON value it holds.
\<close>

datatype kind = KNull | KBool | KInt | KNum | KStr | KArr | KObj

fun kind_of :: "json \<Rightarrow> kind" where
  "kind_of JNull = KNull"
| "kind_of (JBool b) = KBool"
| "kind_of (JInt i) = KInt"
| "kind_of (JNum q) = KNum"
| "kind_of (JStr s) = KStr"
| "kind_of (JArr xs) = KArr"
| "kind_of (JObj fs) = KObj"

fun row_schema :: "json \<Rightarrow> (string \<times> kind) set" where
  "row_schema (JObj fs) = set (map (\<lambda>(k, v). (k, kind_of v)) fs)"
| "row_schema v = {}"

fun family_schema :: "family \<Rightarrow> (string \<times> kind) set" where
  "family_schema Daily = {(''date'', KStr), (''trip_count'', KInt)}"
| "family_schema Hourly = {(''hour'', KInt), (''trip_count'', KInt)}"
| "family_schema Cities = {(''city'', KStr), (''avg_distance'', KNum), (''trip_count'', KInt)}"
| "family_schema TopZones = {(''zone'', KStr), (''trip_count'', KInt)}"
| "family_schema Weekday = {(''city'', KStr), (''day_of_week'', KStr), (''trip_count'', KInt)}"

definition has_schema :: "(string \<times> kind) set \<Rightarrow> error + json \<Rightarrow> bool" where
  "has_schema sch response =
     (case response of
        Inr (JArr rows) \<Rightarrow> list_all (\<lambda>r. is_object r \<and> row_schema r = sch) rows
      | _ \<Rightarrow> False)"

text \<open>The limits the \<^verbatim>\<open>$limit\<close> stage accepts; a request without one gets 10.\<close>

definition stage_accepts :: "int option \<Rightarrow> bool" where
  "stage_accepts l = (case l of None \<Rightarrow> True | Some n \<Rightarrow> 0 < n \<and> n < 2 ^ 63)"

section \<open>Sample data\<close>

text \<open>A timestamp, a draw and three trips on which the theorems below are instantiated.\<close>

definition sample_ts :: datetime where
  "sample_ts = \<lparr>dt_year = 2026, dt_month = 11, dt_day = 3, dt_hour = 9, dt_minute = 5,
                 dt_second = 0, dt_microsecond = 0\<rparr>"

definition sample_draw :: "string \<Rightarrow> string \<Rightarrow> rat \<Rightarrow> draw" where
  "sample_draw c z q =
     \<lparr>d_ts = sample_ts, d_city = c, d_zone_start = z, d_zone_end = ''Zone E'',
      d_distance = q, d_price = 4, d_trip_id = ''t'', d_user_id = ''u''\<rparr>"

definition sample_trip :: "string \<Rightarrow> string \<Rightarrow> rat \<Rightarrow> trip" where
  "sample_trip c z q =
     \<lparr>trip_id = ''t'', user_id = ''u'', city = c, zone_start = z, zone_end = ''Zone E'',
      distance_km = q, price_eur = 4, timestamp = sample_ts, hour = 9,
      day_of_week = ''Tuesday'', date = ''2026-11-03''\<rparr>"

definition sample_db :: "trip list" where
  "sample_db = [sample_trip ''Lyon'' ''Zone B'' 1, sample_trip ''Paris'' ''Zone A'' 5,
                sample_trip ''Lyon'' ''Zone C'' 1]"

text \<open>Two orders an engine may take among zones with equal counts.\<close>

definition zone_a_first :: tie_order where
  "zone_a_first z = (if z = ''Zone A'' then 0 else 1)"

definition zone_b_first :: tie_order where
  "zone_b_first z = (if z = ''Zone B'' then 0 else 1)"

section \<open>Loading an artifact\<close>

lemma load_spark_result_simps:
  "fs f = Absent \<Longrightarrow> load_spark_result fs f = Inr JNull"
  "fs f = Unreadable \<Longrightarrow> load_spark_result fs f = Inl OSError"
  "fs f = Malformed \<Longrightarrow> load_spark_result fs f = Inl JSONDecodeError"
  "fs f = Parsed v \<Longrightarrow> load_spark_result fs f = Inr v"
  by (simp_all add: load_spark_result_def)

lemma slice_to_negative: "0 < k \<Longrightarrow> slice_to xs (- int k) = take (length xs - k) xs"
  by (simp add: slice_to_def nat_diff_distrib' flip: of_nat_diff)

lemma sample_groups:
  "group_count date sample_db = [(''2026-11-03'', 3)]"
  "group_count hour sample_db = [(9, 3)]"
  "group_count date (filter (\<lambda>t. city t = ''Lyon'') sample_db) = [(''2026-11-03'', 2)]"
  "group_count hour (filter (\<lambda>t. city t = ''Lyon'') sample_db) = [(9, 2)]"
  by (simp_all add: group_count_def group_by_def sample_db_def sample_trip_def)

text \<open>
  C10. \<^verbatim>\<open>GET /top-zones\<close> does not check its limit. With a non-empty array as the
  artifact, a negative limit \<open>-k\<close> is accepted and the slice returns every row but the
  last \<open>k\<close>.
\<close>

theorem top_zones_negative_limit:
  assumes "fs ''top_zones.json'' = Parsed (JArr rows)" and "rows \<noteq> []" and "0 < k"
  shows "top_zones ties fs db (Some (- int k)) = Inr (JArr (take (length rows - k) rows))"
  using assms by (simp add: top_zones_def load_spark_result_simps slice_to_negative)

theorem top_zones_negative_limit_witness:
  "top_zones zone_a_first (\<lambda>f. Parsed (JArr [JInt 1, JInt 2, JInt 3])) [] (Some (- 1))
     = Inr (JArr [JInt 1, JInt 2])"
  using top_zones_negative_limit
    [of "\<lambda>f. Parsed (JArr [JInt 1, JInt 2, JInt 3])" "[JInt 1, JInt 2, JInt 3]" 1
        zone_a_first "[]"]
  by simp

text \<open>
  C5, as the code has it. An absent artifact file sends every family to its live
  aggregate, the same response as with no artifact at all. A file that cannot be opened or
  does not parse is not treated like an absent one: the exception of the load leaves the
  endpoint, for each of the five families and whatever the request.
\<close>

theorem load_failure_propagates:
  "(fs (artifact_name fam) = Absent
      \<longrightarrow> resolve ties fam fs db c l = resolve ties fam no_artifacts db c l)
   \<and> (fs (artifact_name fam) = Unreadable \<longrightarrow> resolve ties fam fs db c l = Inl OSError)
   \<and> (fs (artifact_name fam) = Malformed \<longrightarrow> resolve ties fam fs db c l = Inl JSONDecodeError)"
  by (cases fam)
     (simp_all add: daily_stats_def hourly_stats_def cities_stats_def top_zones_def
        weekday_stats_def load_spark_result_simps no_artifacts_def)

theorem load_failure_propagates_witness:
  "resolve zone_a_first Hourly (\<lambda>f. if f = ''daily.json'' then Parsed JNull else Absent)
       sample_db None None
     = resolve zone_a_first Hourly no_artifacts sample_db None None
   \<and> resolve zone_a_first Daily (\<lambda>f. Unreadable) sample_db None None = Inl OSError
   \<and> resolve zone_a_first TopZones (\<lambda>f. Malformed) sample_db None (Some 3)
     = Inl JSONDecodeError"
  using load_failure_propagates
      [of "\<lambda>f. if f = ''daily.json'' then Parsed JNull else Absent" Hourly zone_a_first
          sample_db None None]
    load_failure_propagates [of "\<lambda>f. Unreadable" Daily zone_a_first sample_db None None]
    load_failure_propagates [of "\<lambda>f. Malformed" TopZones zone_a_first sample_db None "Some 3"]
  by simp

text \<open>
  The claim C5 as the specification states it fails: with a malformed
  \<^verbatim>\<open>daily.json\<close> the daily endpoint raises, while with the file absent it answers
  from the record store.
\<close>

theorem corrupt_artifact_counterexample:
  "daily_stats (no_artifacts(''daily.json'' := Malformed)) sample_db None = Inl JSONDecodeError
   \<and> daily_stats no_artifacts sample_db None
       = Inr (JArr [JObj [(''date'', JStr ''2026-11-03''), (''trip_count'', JInt 3)]])"
  by (simp add: daily_stats_def load_spark_result_def no_artifacts_def city_given_def
        sample_groups order_by_def project_daily_def)

text \<open>
  C1. The daily and the hourly endpoint follow the decision algorithm. When the artifact
  loads to a non-empty value and the request carries no city (none, or the empty string,
  which Python takes as false), the response is the artifact as loaded. When the request
  carries a city and the file is absent or parses, the response is the aggregate over the
  records of that city, computed from the record store alone: the artifact does not occur
  in it. When the file is absent and the request carries no city, the response is the
  aggregate over all records.
\<close>

theorem daily_hourly_resolution:
  "(fs ''daily.json'' = Parsed v \<and> truthy v \<and> \<not> city_given c \<longrightarrow> daily_stats fs db c = Inr v)
   \<and> (fs ''rush_hours.json'' = Parsed v \<and> truthy v \<and> \<not> city_given c
        \<longrightarrow> hourly_stats fs db c = Inr v)
   \<and> ((fs ''daily.json'' = Absent \<or> fs ''daily.json'' = Parsed w) \<and> s \<noteq> [] \<longrightarrow>
        daily_stats fs db (Some s) =
          Inr (JArr (map project_daily
                 (order_by fst (group_count date (filter (\<lambda>t. city t = s) db))))))
   \<and> ((fs ''rush_hours.json'' = Absent \<or> fs ''rush_hours.json'' = Parsed w) \<and> s \<noteq> [] \<longrightarrow>
        hourly_stats fs db (Some s) =
          Inr (JArr (map project_hourly
                 (order_by fst (group_count hour (filter (\<lambda>t. city t = s) db))))))
   \<and> (fs ''daily.json'' = Absent \<and> \<not> city_given c \<longrightarrow>
        daily_stats fs db c = Inr (JArr (map project_daily (order_by fst (group_count date db)))))
   \<and> (fs ''rush_hours.json'' = Absent \<and> \<not> city_given c \<longrightarrow>
        hourly_stats fs db c
          = Inr (JArr (map project_hourly (order_by fst (group_count hour db)))))"
  by (auto simp add: daily_stats_def hourly_stats_def load_spark_result_simps city_given_def
        match_city_def)

theorem daily_hourly_resolution_witness:
  "daily_stats (\<lambda>f. Parsed (JArr [JStr ''kept''])) sample_db None = Inr (JArr [JStr ''kept''])
   \<and> hourly_stats (\<lambda>f. Parsed (JArr [JStr ''kept''])) sample_db (Some [])
       = Inr (JArr [JStr ''kept''])
   \<and> daily_stats (\<lambda>f. Parsed (JArr [JStr ''kept''])) sample_db (Some ''Lyon'')
       = Inr (JArr [JObj [(''date'', JStr ''2026-11-03''), (''trip_count'', JInt 2)]])
   \<and> hourly_stats (\<lambda>f. Parsed (JArr [JStr ''kept''])) sample_db (Some ''Lyon'')
       = Inr (JArr [JObj [(''hour'', JInt 9), (''trip_count'', JInt 2)]])
   \<and> daily_stats (\<lambda>f. Absent) sample_db None
       = Inr (JArr [JObj [(''date'', JStr ''2026-11-03''), (''trip_count'', JInt 3)]])
   \<and> hourly_stats (\<lambda>f. Absent) sample_db None
       = Inr (JArr [JObj [(''hour'', JInt 9), (''trip_count'', JInt 3)]])"
  using daily_hourly_resolution
      [of "\<lambda>f. Parsed (JArr [JStr ''kept''])" "JArr [JStr ''kept'']" None sample_db
          "JArr [JStr ''kept'']" "''Lyon''"]
    daily_hourly_resolution
      [of "\<lambda>f. Parsed (JArr [JStr ''kept''])" "JArr [JStr ''kept'']" "Some []" sample_db
          "JArr [JStr ''kept'']" "''Lyon''"]
    daily_hourly_resolution
      [of "\<lambda>f. Absent" "JArr [JStr ''kept'']" None sample_db "JArr [JStr ''kept'']" "''Lyon''"]
  by (simp add: city_given_def sample_groups order_by_def project_daily_def project_hourly_def)

section \<open>Grouping and ordering\<close>

lemma set_first_seen [simp]: "set (first_seen ks) = set ks"
  by (induction ks) auto

lemma distinct_first_seen [simp]: "distinct (first_seen ks)"
  by (induction ks) auto

lemma map_fst_group_count: "map fst (group_count key xs) = first_seen (map key xs)"
  by (simp add: group_count_def group_by_def comp_def)

lemma distinct_group_count: "distinct (map fst (group_count key xs))"
  by (simp add: map_fst_group_count)

lemma set_group_count:
  "set (group_count key xs) = (\<lambda>k. (k, length (filter (\<lambda>x. key x = k) xs))) ` key ` set xs"
  by (auto simp add: group_count_def group_by_def image_iff)

lemma group_count_member:
  "(k, n) \<in> set (group_count key xs) \<longleftrightarrow>
     k \<in> key ` set xs \<and> n = length (filter (\<lambda>x. key x = k) xs)"
  by (auto simp add: set_group_count)

lemma group_count_empty_iff: "group_count key xs = [] \<longleftrightarrow> xs = []"
  by (cases xs) (simp_all add: group_count_def group_by_def)

lemma sum_list_indicator:
  "distinct ks \<Longrightarrow>
     sum_list (map (\<lambda>k. if a = k then 1 else 0) ks) = (if a \<in> set ks then 1 else (0::nat))"
  by (induction ks) auto

lemma sum_counts_over_keys:
  "distinct ks \<Longrightarrow> key ` set xs \<subseteq> set ks \<Longrightarrow>
     sum_list (map (\<lambda>k. length (filter (\<lambda>x. key x = k) xs)) ks) = length xs"
proof (induction xs)
  case Nil
  then show ?case by simp
next
  case (Cons x xs)
  have "sum_list (map (\<lambda>k. length (filter (\<lambda>y. key y = k) (x # xs))) ks)
      = sum_list (map (\<lambda>k. (if key x = k then 1 else 0)
                            + length (filter (\<lambda>y. key y = k) xs)) ks)"
    by (rule arg_cong [where f = sum_list]) auto
  also have "\<dots> = sum_list (map (\<lambda>k. if key x = k then 1 else 0) ks)
      + sum_list (map (\<lambda>k. length (filter (\<lambda>y. key y = k) xs)) ks)"
    by (simp add: sum_list_addf)
  also have "\<dots> = 1 + length xs"
    using Cons by (simp add: sum_list_indicator)
  finally show ?case by simp
qed

lemma sum_group_count: "sum_list (map snd (group_count key xs)) = length xs"
proof -
  have "map snd (group_count key xs)
      = map (\<lambda>k. length (filter (\<lambda>x. key x = k) xs)) (first_seen (map key xs))"
    by (simp add: group_count_def group_by_def comp_def)
  then show ?thesis
    by (simp add: sum_counts_over_keys)
qed

lemma mset_order_by [simp]: "mset (order_by key xs) = mset xs"
  by (simp add: order_by_def)

lemma mset_order_by_desc [simp]: "mset (order_by_desc key xs) = mset xs"
  by (simp add: order_by_desc_def)

lemma set_order_by [simp]: "set (order_by key xs) = set xs"
  by (simp add: order_by_def)

lemma set_order_by_desc [simp]: "set (order_by_desc key xs) = set xs"
  by (simp add: order_by_desc_def)

lemma length_order_by_desc [simp]: "length (order_by_desc key xs) = length xs"
  by (simp add: order_by_desc_def)

lemma order_by_desc_empty_iff: "order_by_desc key xs = [] \<longleftrightarrow> xs = []"
  by (simp add: order_by_desc_def flip: length_0_conv)

lemma sorted_order_by: "sorted (map key (order_by key xs))"
  by (simp add: order_by_def)

lemma descending_order_by_desc: "sorted_wrt (\<lambda>a b. key b \<le> key a) (order_by_desc key xs)"
proof -
  have "sorted_wrt (\<lambda>a b. key a \<le> key b) (sort_key key (rev xs))"
    using sorted_sort_key [of key "rev xs"] by (simp add: sorted_map)
  then show ?thesis
    by (simp add: order_by_desc_def sorted_wrt_rev)
qed

lemma sum_list_permuted:
  "mset xs = mset ys \<Longrightarrow> sum_list (map f xs) = sum_list (map (f::'a \<Rightarrow> nat) ys)"
  by (metis mset_map sum_mset_sum_list)

lemma length_take_int: "0 \<le> n \<Longrightarrow> int (length (take (nat n) xs)) \<le> n"
  by (simp add: min_def) linarith

section \<open>Row schemas\<close>

lemma has_schema_map:
  assumes "\<And>r. is_object (f r) \<and> row_schema (f r) = sch"
  shows "has_schema sch (Inr (JArr (map f rows)))"
  using assms by (simp add: has_schema_def list_all_iff)

lemma has_schema_slice:
  assumes "has_schema sch (Inr (JArr rows))"
  shows "has_schema sch (Inr (JArr (slice_to rows n)))"
  using assms by (auto simp add: has_schema_def list_all_iff slice_to_def dest: in_set_takeD)

lemma project_schemas:
  "is_object (project_daily r1) \<and> row_schema (project_daily r1) = family_schema Daily"
  "is_object (project_hourly r2) \<and> row_schema (project_hourly r2) = family_schema Hourly"
  "is_object (project_cities r3) \<and> row_schema (project_cities r3) = family_schema Cities"
  "is_object (project_zones r1) \<and> row_schema (project_zones r1) = family_schema TopZones"
  "is_object (project_weekday r4) \<and> row_schema (project_weekday r4) = family_schema Weekday"
  by (auto simp add: project_daily_def project_hourly_def project_cities_def project_zones_def
        project_weekday_def split: prod.splits)

lemma live_has_schema:
  assumes "stage_accepts l" and "fs (artifact_name fam) = Absent"
  shows "has_schema (family_schema fam) (resolve ties fam fs db c l)"
proof (cases fam)
  case Daily
  then show ?thesis using assms
    by (simp add: daily_stats_def load_spark_result_def has_schema_map project_schemas Let_def)
next
  case Hourly
  then show ?thesis using assms
    by (simp add: hourly_stats_def load_spark_result_def has_schema_map project_schemas Let_def)
next
  case Cities
  then show ?thesis using assms
    by (simp add: cities_stats_def load_spark_result_def has_schema_map project_schemas)
next
  case TopZones
  then show ?thesis using assms
    by (auto simp add: top_zones_def load_spark_result_def limit_stage_def stage_accepts_def
          has_schema_map project_schemas split: option.splits)
next
  case Weekday
  then show ?thesis using assms
    by (simp add: weekday_stats_def load_spark_result_def has_schema_map project_schemas)
qed

lemma artifact_schemas:
  "has_schema (family_schema Daily) (Inr (daily_list df))"
  "has_schema (family_schema Hourly) (Inr (rush_list df))"
  "has_schema (family_schema Cities) (Inr (avg_list df))"
  "has_schema (family_schema TopZones) (Inr (zones_list spark df))"
  "has_schema (family_schema Weekday) (Inr (day_list df))"
  by (auto simp add: daily_list_def rush_list_def avg_list_def zones_list_def day_list_def
        has_schema_def list_all_iff)

lemma run_analytics_files:
  "run_analytics spark df fs ''daily.json'' = Parsed (daily_list df)"
  "run_analytics spark df fs ''avg_distance.json'' = Parsed (avg_list df)"
  "run_analytics spark df fs ''rush_hours.json'' = Parsed (rush_list df)"
  "run_analytics spark df fs ''top_zones.json'' = Parsed (zones_list spark df)"
  "run_analytics spark df fs ''by_day_of_week.json'' = Parsed (day_list df)"
  by (simp_all add: run_analytics_def)

lemma artifact_backed_has_schema:
  assumes "stage_accepts l"
  shows "has_schema (family_schema fam) (resolve ties fam (run_analytics spark db fs) db c l)"
proof (cases fam)
  case Daily
  then show ?thesis using artifact_schemas(1) [of db]
    by (simp add: daily_stats_def load_spark_result_def run_analytics_files has_schema_map
          project_schemas Let_def)
next
  case Hourly
  then show ?thesis using artifact_schemas(2) [of db]
    by (simp add: hourly_stats_def load_spark_result_def run_analytics_files has_schema_map
          project_schemas Let_def)
next
  case Cities
  then show ?thesis using artifact_schemas(3) [of db]
    by (simp add: cities_stats_def load_spark_result_def run_analytics_files has_schema_map
          project_schemas)
next
  case TopZones
  have "has_schema (family_schema TopZones) (py_slice (zones_list spark db) n)" for n
    using artifact_schemas(4) [of spark db] by (simp add: zones_list_def has_schema_slice)
  then show ?thesis using TopZones assms
    by (auto simp add: top_zones_def load_spark_result_def run_analytics_files limit_stage_def
          stage_accepts_def has_schema_map project_schemas split: option.splits)
next
  case Weekday
  then show ?thesis using artifact_schemas(5) [of db]
    by (simp add: weekday_stats_def load_spark_result_def run_analytics_files has_schema_map
          project_schemas)
qed

text \<open>
  C2. For every family, every record set and every request whose limit the aggregation
  accepts, the live fallback (artifact file absent) and the response backed by the
  artifact computed from the same records are both arrays of objects with the family's
  schema: the same field names, holding the same kinds of values.
\<close>

theorem fallback_schema_identical:
  assumes "fs (artifact_name fam) = Absent" and "stage_accepts l"
  shows "has_schema (family_schema fam) (resolve ties fam fs db c l)
         \<and> has_schema (family_schema fam)
              (resolve ties fam (run_analytics spark db fs) db c l)"
  using assms by (simp add: live_has_schema artifact_backed_has_schema)

theorem fallback_schema_identical_witness:
  "has_schema (family_schema Cities)
       (resolve zone_a_first Cities no_artifacts sample_db None None)
   \<and> has_schema (family_schema Cities)
        (resolve zone_a_first Cities (run_analytics zone_b_first sample_db no_artifacts)
           sample_db None None)
   \<and> has_schema (family_schema TopZones)
        (resolve zone_a_first TopZones no_artifacts sample_db None (Some 2))
   \<and> has_schema (family_schema TopZones)
        (resolve zone_a_first TopZones (run_analytics zone_b_first sample_db no_artifacts)
           sample_db None (Some 2))"
  using fallback_schema_identical
      [of no_artifacts Cities None zone_a_first sample_db None zone_b_first]
    fallback_schema_identical
      [of no_artifacts TopZones "Some 2" zone_a_first sample_db None zone_b_first]
  by (simp add: no_artifacts_def stage_accepts_def)

section \<open>Top zones\<close>

lemma trip_counts_project_zones:
  "trip_counts (JArr (map project_zones rows)) = map (\<lambda>r. int (snd r)) rows"
  by (simp add: trip_counts_def project_zones_def comp_def)

lemma insort_key_ties:
  assumes "\<forall>y \<in> set ys. Q x y" and "sorted_wrt (\<lambda>a b. f a = f b \<longrightarrow> Q a b) ys"
  shows "sorted_wrt (\<lambda>a b. f a = f b \<longrightarrow> Q a b) (insort_key f x ys)"
  using assms by (induction ys) (auto simp add: set_insort_key)

lemma sort_key_ties:
  assumes "sorted_wrt Q xs"
  shows "sorted_wrt (\<lambda>a b. f a = f b \<longrightarrow> Q a b) (sort_key f xs)"
  using assms by (induction xs) (auto intro!: insort_key_ties)

lemma order_by_desc_ties:
  assumes "sorted_wrt Q xs"
  shows "sorted_wrt (\<lambda>a b. key a = key b \<longrightarrow> Q a b) (order_by_desc key xs)"
proof -
  have "sorted_wrt (\<lambda>a b. Q b a) (rev xs)"
    using assms by (simp add: sorted_wrt_rev)
  then have "sorted_wrt (\<lambda>a b. key a = key b \<longrightarrow> Q b a) (sort_key key (rev xs))"
    by (rule sort_key_ties)
  then have "sorted_wrt (\<lambda>a b. key b = key a \<longrightarrow> Q a b) (rev (sort_key key (rev xs)))"
    by (simp add: sorted_wrt_rev)
  then show ?thesis
    unfolding order_by_desc_def by (rule sorted_wrt_mono_rel [rotated]) auto
qed

lemma engine_order_sorted:
  "sorted_wrt (\<lambda>a b. ties (fst a) \<le> ties (fst b)) (engine_order ties groups)"
  using sorted_sort_key [of "\<lambda>r. ties (fst r)" groups]
  by (simp add: engine_order_def sorted_map)

lemma engine_order_empty_iff: "engine_order ties groups = [] \<longleftrightarrow> groups = []"
  by (simp add: engine_order_def flip: length_0_conv)

lemma ranked_zones:
  "sorted_wrt (\<lambda>a b. snd b \<le> snd a) (order_by_desc snd (engine_order ties groups))"
  "sorted_wrt (\<lambda>a b. snd a = snd b \<longrightarrow> ties (fst a) \<le> ties (fst b))
     (order_by_desc snd (engine_order ties groups))"
  by (simp_all add: descending_order_by_desc order_by_desc_ties engine_order_sorted)

lemma ranked_zones_cut:
  "sorted_wrt (\<lambda>a b. b \<le> a)
     (map (\<lambda>r. int (snd r)) (take m (order_by_desc snd (engine_order ties groups))))"
  "sorted_wrt (\<lambda>a b. snd a = snd b \<longrightarrow> ties (fst a) \<le> ties (fst b))
     (take m (order_by_desc snd (engine_order ties groups)))"
proof -
  have "sorted_wrt (\<lambda>a b. snd b \<le> snd a) (take m (order_by_desc snd (engine_order ties groups)))"
    by (intro sorted_wrt_take ranked_zones)
  then show "sorted_wrt (\<lambda>a b. b \<le> a)
     (map (\<lambda>r. int (snd r)) (take m (order_by_desc snd (engine_order ties groups))))"
    by (simp add: sorted_wrt_map)
  show "sorted_wrt (\<lambda>a b. snd a = snd b \<longrightarrow> ties (fst a) \<le> ties (fst b))
     (take m (order_by_desc snd (engine_order ties groups)))"
    by (intro sorted_wrt_take ranked_zones)
qed

lemma zones_list_truthy: "truthy (zones_list spark df) \<longleftrightarrow> df \<noteq> []"
  by (simp add: zones_list_def spark_top_zones_def order_by_desc_empty_iff
        engine_order_empty_iff group_count_empty_iff)

text \<open>
  The rank is no restriction. Any list of the zone groups that is descending in the count
  is the ranking the pipeline gives under the rank that numbers the zones in the order of
  that list; the live pipeline ranks with the same expression.
\<close>

lemma position_Cons:
  "position (k # ks) k' = (if k' = k then 0 else Suc (position ks k'))"
  by (simp add: position_def)

lemma position_inj: "k \<in> set ks \<Longrightarrow> position ks k = position ks k' \<Longrightarrow> k = k'"
  unfolding position_def by (induction ks) (auto split: if_splits)

lemma sorted_position: "distinct ks \<Longrightarrow> sorted (map (position ks) ks)"
proof (induction ks)
  case Nil
  then show ?case by simp
next
  case (Cons k ks)
  then have eq: "map (position (k # ks)) ks = map (\<lambda>x. Suc (position ks x)) ks"
    by (auto simp add: position_Cons)
  have "sorted (map (\<lambda>x. Suc (position ks x)) ks)"
    using Cons by (simp add: sorted_map sorted_wrt_map)
  then have "sorted (map (position (k # ks)) ks)"
    by (simp only: eq)
  moreover have "position (k # ks) k = 0"
    by (simp add: position_Cons)
  ultimately show ?case
    by simp
qed

lemma filter_same_key:
  "distinct (map fst xs) \<Longrightarrow> k \<in> set xs \<Longrightarrow> filter (\<lambda>x. fst x = fst k) xs = [k]"
proof (induction xs)
  case Nil
  then show ?case by simp
next
  case (Cons x xs)
  show ?case
  proof (cases "k = x")
    case True
    have "filter (\<lambda>y. fst y = fst x) xs = []"
      using Cons.prems(1) by (auto simp add: filter_empty_conv image_iff)
    with True show ?thesis by simp
  next
    case False
    with Cons.prems have "k \<in> set xs" and "fst x \<noteq> fst k"
      by (auto simp add: image_iff)
    with Cons show ?thesis by simp
  qed
qed

lemma engine_order_position:
  assumes "mset rows = mset groups" and "distinct (map fst groups)"
  shows "engine_order (position (map fst rows)) groups = rows"
proof -
  let ?f = "\<lambda>r. position (map fst rows) (fst r)"
  have d: "distinct (map fst rows)"
    using assms by (metis mset_eq_imp_distinct_iff mset_map)
  have s: "set rows = set groups"
    using assms(1) by (rule mset_eq_setD)
  have same: "?f k = ?f x \<longleftrightarrow> fst x = fst k" if "k \<in> set rows" for k x
    using that position_inj [of "fst k" "map fst rows" "fst x"] by auto
  have "filter (\<lambda>x. ?f k = ?f x) rows = filter (\<lambda>x. ?f k = ?f x) groups"
    if "k \<in> set rows" for k
    using that d assms(2) s by (simp add: same filter_same_key)
  moreover have "sorted (map ?f rows)"
    using sorted_position [OF d] by (simp add: comp_def)
  ultimately have "sort_key ?f groups = rows"
    using assms(1) by (intro properties_for_sort_key) auto
  then show ?thesis
    by (simp add: engine_order_def)
qed

lemma order_by_desc_id:
  assumes "sorted_wrt (\<lambda>a b. key b \<le> key a) xs"
  shows "order_by_desc key xs = xs"
proof -
  have "sorted (map key (rev xs))"
    using assms by (simp add: sorted_map sorted_wrt_rev sorted_wrt_map rev_map)
  then show ?thesis
    by (simp add: order_by_desc_def sort_key_id_if_sorted)
qed

lemma every_tie_order:
  assumes "mset rows = mset (group_count zone_start df)"
    and "sorted_wrt (\<lambda>a b. snd b \<le> snd a) rows"
  shows "spark_top_zones (position (map fst rows)) df = rows"
  using assms
  by (simp add: spark_top_zones_def engine_order_position distinct_group_count order_by_desc_id)

lemma sample_zone_groups:
  "group_count zone_start [sample_trip ''Lyon'' ''Zone B'' 1, sample_trip ''Paris'' ''Zone A'' 5]
     = [(''Zone B'', 1), (''Zone A'', 1)]"
  by (simp add: group_count_def group_by_def sample_trip_def)

lemma sample_zone_rankings:
  "order_by_desc snd (engine_order zone_a_first [(''Zone B'', n), (''Zone A'', n)])
     = [(''Zone A'', n), (''Zone B'', n)]"
  "order_by_desc snd (engine_order zone_b_first [(''Zone B'', n), (''Zone A'', n)])
     = [(''Zone B'', n), (''Zone A'', n)]"
  by (simp_all add: order_by_desc_def engine_order_def zone_a_first_def zone_b_first_def)

text \<open>
  C6, as the code has it. With the artifact of the batch job over a non-empty record set
  and a limit \<open>n \<ge> 0\<close>, and with the artifact absent and a limit the \<^verbatim>\<open>$limit\<close>
  stage accepts (\<open>0 < n < 2^63\<close>), \<^verbatim>\<open>GET /top-zones\<close> returns at most \<open>n\<close> rows,
  each trip count at least the next one. Rows with equal counts stand in the order the
  engine takes among them, Spark's of the run that wrote the artifact on the one path and
  MongoDB's of the request on the other; the zone name has no part in it. A request
  without a limit is served as limit 10.
\<close>

theorem top_zones_limit_descending:
  "(fs ''top_zones.json'' = Parsed (zones_list spark df) \<and> df \<noteq> [] \<and> 0 \<le> n \<longrightarrow>
      (\<exists>rows. top_zones ties fs db (Some n) = Inr (JArr (map project_zones rows))
         \<and> int (length rows) \<le> n
         \<and> sorted_wrt (\<lambda>a b. b \<le> a) (trip_counts (JArr (map project_zones rows)))
         \<and> sorted_wrt (\<lambda>a b. snd a = snd b \<longrightarrow> spark (fst a) \<le> spark (fst b)) rows))
   \<and> (fs ''top_zones.json'' = Absent \<and> 0 < n \<and> n < 2 ^ 63 \<longrightarrow>
      (\<exists>rows. top_zones ties fs db (Some n) = Inr (JArr (map project_zones rows))
         \<and> int (length rows) \<le> n
         \<and> sorted_wrt (\<lambda>a b. b \<le> a) (trip_counts (JArr (map project_zones rows)))
         \<and> sorted_wrt (\<lambda>a b. snd a = snd b \<longrightarrow> ties (fst a) \<le> ties (fst b)) rows))
   \<and> top_zones ties fs db None = top_zones ties fs db (Some 10)"
proof (intro conjI impI)
  assume a: "fs ''top_zones.json'' = Parsed (zones_list spark df) \<and> df \<noteq> [] \<and> 0 \<le> n"
  let ?rows = "take (nat n) (spark_top_zones spark df)"
  have "zones_list spark df = JArr (map project_zones (spark_top_zones spark df))"
    by (simp add: zones_list_def project_zones_def split_def)
  then have "top_zones ties fs db (Some n) = Inr (JArr (map project_zones ?rows))"
    using a zones_list_truthy [of spark df]
    by (simp add: top_zones_def load_spark_result_simps slice_to_def take_map)
  moreover have "int (length ?rows) \<le> n"
    using a by (intro length_take_int) simp
  moreover have "sorted_wrt (\<lambda>a b. b \<le> a) (trip_counts (JArr (map project_zones ?rows)))"
    by (simp only: trip_counts_project_zones spark_top_zones_def ranked_zones_cut)
  moreover have "sorted_wrt (\<lambda>a b. snd a = snd b \<longrightarrow> spark (fst a) \<le> spark (fst b)) ?rows"
    by (simp only: spark_top_zones_def ranked_zones_cut)
  ultimately show "\<exists>rows. top_zones ties fs db (Some n) = Inr (JArr (map project_zones rows))
         \<and> int (length rows) \<le> n
         \<and> sorted_wrt (\<lambda>a b. b \<le> a) (trip_counts (JArr (map project_zones rows)))
         \<and> sorted_wrt (\<lambda>a b. snd a = snd b \<longrightarrow> spark (fst a) \<le> spark (fst b)) rows"
    by blast
next
  assume a: "fs ''top_zones.json'' = Absent \<and> 0 < n \<and> n < 2 ^ 63"
  let ?rows = "take (nat n) (order_by_desc snd (engine_order ties (group_count zone_start db)))"
  have "top_zones ties fs db (Some n) = Inr (JArr (map project_zones ?rows))"
    using a by (simp add: top_zones_def load_spark_result_simps limit_stage_def)
  moreover have "int (length ?rows) \<le> n"
    using a by (intro length_take_int) simp
  moreover have "sorted_wrt (\<lambda>a b. b \<le> a) (trip_counts (JArr (map project_zones ?rows)))"
    by (simp only: trip_counts_project_zones ranked_zones_cut)
  moreover have "sorted_wrt (\<lambda>a b. snd a = snd b \<longrightarrow> ties (fst a) \<le> ties (fst b)) ?rows"
    by (rule ranked_zones_cut)
  ultimately show "\<exists>rows. top_zones ties fs db (Some n) = Inr (JArr (map project_zones rows))
         \<and> int (length rows) \<le> n
         \<and> sorted_wrt (\<lambda>a b. b \<le> a) (trip_counts (JArr (map project_zones rows)))
         \<and> sorted_wrt (\<lambda>a b. snd a = snd b \<longrightarrow> ties (fst a) \<le> ties (fst b)) rows"
    by blast
next
  show "top_zones ties fs db None = top_zones ties fs db (Some 10)"
    by (simp add: top_zones_def)
qed

theorem top_zones_limit_descending_witness:
  "(\<exists>rows. top_zones zone_a_first (run_analytics zone_b_first sample_db no_artifacts) []
         (Some 2) = Inr (JArr (map project_zones rows))
       \<and> int (length rows) \<le> 2
       \<and> sorted_wrt (\<lambda>a b. b \<le> a) (trip_counts (JArr (map project_zones rows)))
       \<and> sorted_wrt (\<lambda>a b. snd a = snd b \<longrightarrow> zone_b_first (fst a) \<le> zone_b_first (fst b)) rows)
   \<and> (\<exists>rows. top_zones zone_a_first no_artifacts sample_db (Some 2)
         = Inr (JArr (map project_zones rows))
       \<and> int (length rows) \<le> 2
       \<and> sorted_wrt (\<lambda>a b. b \<le> a) (trip_counts (JArr (map project_zones rows)))
       \<and> sorted_wrt (\<lambda>a b. snd a = snd b \<longrightarrow> zone_a_first (fst a) \<le> zone_a_first (fst b)) rows)"
  using top_zones_limit_descending
      [of "run_analytics zone_b_first sample_db no_artifacts" zone_b_first sample_db 2
          zone_a_first "[]"]
    top_zones_limit_descending [of no_artifacts zone_b_first sample_db 2 zone_a_first sample_db]
  by (simp add: run_analytics_files no_artifacts_def sample_db_def)

text \<open>
  The claim C6 as the specification states it fails. Over one record set, a trip from
  Zone B and a trip from Zone A, the response lists Zone B before Zone A when the engine
  takes that order among equal counts and Zone A before Zone B when it takes the other,
  on the live path and through the artifact alike: no stage compares zone names, so the
  program breaks no tie by the zone name. And on the live path the limits 0 and
  \<open>2^63\<close>, which are not negative, make the aggregation raise.
\<close>

theorem top_zones_tie_break_counterexample:
  "top_zones zone_b_first no_artifacts
       [sample_trip ''Lyon'' ''Zone B'' 1, sample_trip ''Paris'' ''Zone A'' 5] (Some 3)
     = Inr (JArr [JObj [(''zone'', JStr ''Zone B''), (''trip_count'', JInt 1)],
                  JObj [(''zone'', JStr ''Zone A''), (''trip_count'', JInt 1)]])
   \<and> top_zones zone_a_first no_artifacts
       [sample_trip ''Lyon'' ''Zone B'' 1, sample_trip ''Paris'' ''Zone A'' 5] (Some 3)
     = Inr (JArr [JObj [(''zone'', JStr ''Zone A''), (''trip_count'', JInt 1)],
                  JObj [(''zone'', JStr ''Zone B''), (''trip_count'', JInt 1)]])
   \<and> top_zones zone_a_first
       (run_analytics zone_b_first
          [sample_trip ''Lyon'' ''Zone B'' 1, sample_trip ''Paris'' ''Zone A'' 5] no_artifacts)
       [sample_trip ''Lyon'' ''Zone B'' 1, sample_trip ''Paris'' ''Zone A'' 5] (Some 3)
     = Inr (JArr [JObj [(''zone'', JStr ''Zone B''), (''trip_count'', JInt 1)],
                  JObj [(''zone'', JStr ''Zone A''), (''trip_count'', JInt 1)]])
   \<and> top_zones zone_b_first
       (run_analytics zone_a_first
          [sample_trip ''Lyon'' ''Zone B'' 1, sample_trip ''Paris'' ''Zone A'' 5] no_artifacts)
       [sample_trip ''Lyon'' ''Zone B'' 1, sample_trip ''Paris'' ''Zone A'' 5] (Some 3)
     = Inr (JArr [JObj [(''zone'', JStr ''Zone A''), (''trip_count'', JInt 1)],
                  JObj [(''zone'', JStr ''Zone B''), (''trip_count'', JInt 1)]])
   \<and> top_zones zone_a_first no_artifacts
       [sample_trip ''Lyon'' ''Zone B'' 1, sample_trip ''Paris'' ''Zone A'' 5] (Some 0)
     = Inl OperationFailure
   \<and> top_zones zone_a_first no_artifacts
       [sample_trip ''Lyon'' ''Zone B'' 1, sample_trip ''Paris'' ''Zone A'' 5] (Some (2 ^ 63))
     = Inl OverflowError"
  by (simp add: top_zones_def load_spark_result_def no_artifacts_def limit_stage_def
        run_analytics_files zones_list_def spark_top_zones_def slice_to_def
        sample_zone_groups sample_zone_rankings project_zones_def)

section \<open>Average distance by city\<close>

lemma sample_city_groups:
  "group_avg_count city distance_km sample_db = [(''Lyon'', 1, 2), (''Paris'', 5, 1)]"
  by (simp add: group_avg_count_def group_by_def sample_db_def sample_trip_def mean_def)

lemma round2_values:
  "spark_round2 1 = 1" "spark_round2 5 = 5" "mongo_round2 1 = 1" "mongo_round2 5 = 5"
  by code_simp+

lemma cities_live_descending:
  assumes "fs ''avg_distance.json'' = Absent"
  shows "\<exists>rows. cities_stats fs db = Inr (JArr (map project_cities rows))
           \<and> sorted_wrt (\<lambda>a b. snd (snd b) \<le> snd (snd a)) rows"
proof -
  have "sorted_wrt (\<lambda>a b. (\<lambda>(c, a, n). n) b \<le> (\<lambda>(c, a, n). n) a)
          (order_by_desc (\<lambda>(c, a, n). n) (group_avg_count city distance_km db))"
    by (rule descending_order_by_desc)
  then have "sorted_wrt (\<lambda>a b. snd (snd b) \<le> snd (snd a))
          (order_by_desc (\<lambda>(c, a, n). n) (group_avg_count city distance_km db))"
    by (simp add: split_def)
  then show ?thesis
    using assms by (auto simp add: cities_stats_def load_spark_result_simps)
qed

text \<open>
  C3 at Lyon with two trips of 1 km and Paris with one trip of 5 km. The artifact of the
  batch job is ordered by the rounded average, so Paris with one trip stands before Lyon
  with two, and the endpoint returns it as it is; the live fallback on the same records
  is ordered by the trip count, Lyon first.
\<close>

theorem cities_artifact_order_evaluation:
  "cities_stats (run_analytics spark sample_db no_artifacts) sample_db
     = Inr (JArr [JObj [(''city'', JStr ''Paris''), (''avg_distance'', JNum 5),
                        (''trip_count'', JInt 1)],
                  JObj [(''city'', JStr ''Lyon''), (''avg_distance'', JNum 1),
                        (''trip_count'', JInt 2)]])
   \<and> cities_stats no_artifacts sample_db
     = Inr (JArr [JObj [(''city'', JStr ''Lyon''), (''avg_distance'', JNum 1),
                        (''trip_count'', JInt 2)],
                  JObj [(''city'', JStr ''Paris''), (''avg_distance'', JNum 5),
                        (''trip_count'', JInt 1)]])"
  by (simp add: cities_stats_def load_spark_result_def run_analytics_files no_artifacts_def
        avg_list_def avg_dist_def sample_city_groups round2_values order_by_desc_def
        project_cities_def)

section \<open>Trips by city and day of week\<close>

lemma by_day_sorted:
  "sorted_wrt (\<lambda>a b. fst (fst b) < fst (fst a) \<or> (fst (fst b) = fst (fst a) \<and> snd b \<le> snd a))
     (by_day df)"
proof -
  have "sorted_wrt (\<lambda>a b. (\<lambda>((c, d), n). (c, n)) b \<le> (\<lambda>((c, d), n). (c, n)) a) (by_day df)"
    unfolding by_day_def by (rule descending_order_by_desc)
  then show ?thesis
    by (rule sorted_wrt_mono_rel [rotated]) (auto simp add: less_eq_prod_def split: prod.splits)
qed

lemma distinct_by_day: "distinct (map fst (by_day df))"
proof -
  have "mset (map fst (by_day df))
      = mset (map fst (group_count (\<lambda>t. (city t, day_of_week t)) df))"
    unfolding by_day_def by (simp only: mset_map mset_order_by_desc)
  then show ?thesis
    using distinct_group_count [of "\<lambda>t. (city t, day_of_week t)" df]
    by (metis mset_eq_imp_distinct_iff)
qed

lemma city_day_group_member:
  "((c, d), n) \<in> set (group_count (\<lambda>t. (city t, day_of_week t)) df) \<longleftrightarrow>
     0 < n \<and> n = length (filter (\<lambda>t. city t = c \<and> day_of_week t = d) df)"
  by (auto simp add: group_count_member filter_empty_conv image_iff)

lemma day_list_project: "day_list df = JArr (map project_weekday (by_day df))"
  by (simp add: day_list_def project_weekday_def split_def)

lemma day_list_truthy: "truthy (day_list df) \<longleftrightarrow> df \<noteq> []"
  by (simp add: day_list_def by_day_def order_by_desc_empty_iff group_count_empty_iff)

lemma sample_weekday_groups:
  "group_count (\<lambda>t. (city t, day_of_week t))
       [sample_trip ''Lyon'' ''Zone B'' 1, sample_trip ''Paris'' ''Zone A'' 5]
     = [((''Lyon'', ''Tuesday''), 1), ((''Paris'', ''Tuesday''), 1)]"
  by (simp add: group_count_def group_by_def sample_trip_def)

text \<open>
  C4, as the code has it. On both paths the rows are the pairs of city and day of week
  that occur, each once, with the number of trips of that pair. The batch artifact is
  sorted by city descending, then by trip count descending (the one
  \<^verbatim>\<open>ascending=False\<close> covers both columns), and the endpoint returns a non-empty
  artifact as it is. Nothing is said on the order of the live fallback.
\<close>

theorem weekday_grouping_and_order:
  "distinct (map fst (by_day df))
   \<and> (\<forall>c d n. ((c, d), n) \<in> set (by_day df) \<longleftrightarrow>
         0 < n \<and> n = length (filter (\<lambda>t. city t = c \<and> day_of_week t = d) df))
   \<and> sorted_wrt (\<lambda>a b. fst (fst b) < fst (fst a)
                       \<or> (fst (fst b) = fst (fst a) \<and> snd b \<le> snd a)) (by_day df)
   \<and> (df \<noteq> [] \<longrightarrow>
        weekday_stats (run_analytics spark df fs) db = Inr (JArr (map project_weekday (by_day df))))
   \<and> (fs ''by_day_of_week.json'' = Absent \<longrightarrow>
        (\<exists>rows. weekday_stats fs db = Inr (JArr (map project_weekday rows))
           \<and> distinct (map fst rows)
           \<and> (\<forall>c d n. ((c, d), n) \<in> set rows \<longleftrightarrow>
                 0 < n \<and> n = length (filter (\<lambda>t. city t = c \<and> day_of_week t = d) db))))"
proof (intro conjI impI)
  show "distinct (map fst (by_day df))"
    by (rule distinct_by_day)
  show "\<forall>c d n. ((c, d), n) \<in> set (by_day df) \<longleftrightarrow>
         0 < n \<and> n = length (filter (\<lambda>t. city t = c \<and> day_of_week t = d) df)"
    by (simp add: by_day_def city_day_group_member)
  show "sorted_wrt (\<lambda>a b. fst (fst b) < fst (fst a)
                       \<or> (fst (fst b) = fst (fst a) \<and> snd b \<le> snd a)) (by_day df)"
    by (rule by_day_sorted)
  show "weekday_stats (run_analytics spark df fs) db = Inr (JArr (map project_weekday (by_day df)))"
    if "df \<noteq> []"
    using that day_list_truthy [of df]
    by (simp add: weekday_stats_def load_spark_result_def run_analytics_files
          flip: day_list_project)
  show "\<exists>rows. weekday_stats fs db = Inr (JArr (map project_weekday rows))
           \<and> distinct (map fst rows)
           \<and> (\<forall>c d n. ((c, d), n) \<in> set rows \<longleftrightarrow>
                 0 < n \<and> n = length (filter (\<lambda>t. city t = c \<and> day_of_week t = d) db))"
    if "fs ''by_day_of_week.json'' = Absent"
  proof (intro exI conjI)
    show "weekday_stats fs db
        = Inr (JArr (map project_weekday (group_count (\<lambda>t. (city t, day_of_week t)) db)))"
      using that by (simp add: weekday_stats_def load_spark_result_simps)
    show "distinct (map fst (group_count (\<lambda>t. (city t, day_of_week t)) db))"
      by (rule distinct_group_count)
    show "\<forall>c d n. ((c, d), n) \<in> set (group_count (\<lambda>t. (city t, day_of_week t)) db) \<longleftrightarrow>
            0 < n \<and> n = length (filter (\<lambda>t. city t = c \<and> day_of_week t = d) db)"
      by (simp add: city_day_group_member)
  qed
qed

theorem weekday_grouping_and_order_witness:
  "weekday_stats (run_analytics zone_a_first sample_db no_artifacts) []
     = Inr (JArr (map project_weekday (by_day sample_db)))
   \<and> (\<exists>rows. weekday_stats no_artifacts sample_db = Inr (JArr (map project_weekday rows))
         \<and> distinct (map fst rows)
         \<and> (\<forall>c d n. ((c, d), n) \<in> set rows \<longleftrightarrow>
               0 < n \<and> n = length (filter (\<lambda>t. city t = c \<and> day_of_week t = d) sample_db)))"
  using weekday_grouping_and_order [of sample_db zone_a_first no_artifacts "[]"]
    weekday_grouping_and_order [of sample_db zone_a_first no_artifacts sample_db]
  by (simp add: no_artifacts_def sample_db_def)

text \<open>
  The claim C4 as the specification states it fails: over one trip in Lyon and one in
  Paris the artifact, and with it the response, lists Paris before Lyon, cities in
  descending order.
\<close>

theorem weekday_city_order_counterexample:
  "weekday_stats
       (run_analytics zone_a_first
          [sample_trip ''Lyon'' ''Zone B'' 1, sample_trip ''Paris'' ''Zone A'' 5] no_artifacts)
       [sample_trip ''Lyon'' ''Zone B'' 1, sample_trip ''Paris'' ''Zone A'' 5]
     = Inr (JArr [JObj [(''city'', JStr ''Paris''), (''day_of_week'', JStr ''Tuesday''),
                        (''trip_count'', JInt 1)],
                  JObj [(''city'', JStr ''Lyon''), (''day_of_week'', JStr ''Tuesday''),
                        (''trip_count'', JInt 1)]])"
  by (simp add: weekday_stats_def load_spark_result_def run_analytics_files day_list_def
        by_day_def sample_weekday_groups order_by_desc_def less_eq_prod_def)

section \<open>The ingestion run\<close>

lemma loop_0: "loop gen 0 B = initial"
  by (simp add: loop_def)

lemma loop_Suc: "loop gen (Suc n) B = loop_body B gen (loop gen n B) n"
  by (simp add: loop_def)

lemma counter_value_increment:
  "counter_value (increment tbl k) k' = counter_value tbl k' + (if k' = k then 1 else 0)"
  by (simp add: increment_def counter_value_def)

lemma loop_body_fields:
  "trips_by_zone (loop_body B gen s i)
     = increment (trips_by_zone s) (d_city (gen i), d_zone_start (gen i))"
  "trips_by_hour (loop_body B gen s i)
     = increment (trips_by_hour s)
         (d_city (gen i), strftime_Ymd (d_ts (gen i)), dt_hour (d_ts (gen i)))"
  "documents (loop_body B gen s i) @ batch_docs (loop_body B gen s i)
     = documents s @ batch_docs s @ [make_trip (gen i)]"
  by (simp_all add: loop_body_def Let_def documents_def insert_many_def)

lemma loop_documents:
  "documents (loop gen n B) @ batch_docs (loop gen n B) = map (\<lambda>i. make_trip (gen i)) [0..<n]"
proof (induction n)
  case 0
  show ?case by (simp add: loop_0 initial_def documents_def)
next
  case (Suc n)
  then show ?case by (simp add: loop_Suc loop_body_fields)
qed

lemma loop_zone_counter:
  "counter_value (trips_by_zone (loop gen n B)) k
     = int (length (filter (\<lambda>i. (d_city (gen i), d_zone_start (gen i)) = k) [0..<n]))"
proof (induction n)
  case 0
  show ?case by (simp add: loop_0 initial_def counter_value_def)
next
  case (Suc n)
  then show ?case by (simp add: loop_Suc loop_body_fields counter_value_increment)
qed

lemma loop_hour_counter:
  "counter_value (trips_by_hour (loop gen n B)) k
     = int (length (filter
         (\<lambda>i. (d_city (gen i), strftime_Ymd (d_ts (gen i)), dt_hour (d_ts (gen i))) = k)
         [0..<n]))"
proof (induction n)
  case 0
  show ?case by (simp add: loop_0 initial_def counter_value_def)
next
  case (Suc n)
  then show ?case by (simp add: loop_Suc loop_body_fields counter_value_increment)
qed

lemma generate_fields:
  "trips_by_zone (generate gen N B) = trips_by_zone (loop gen N B)"
  "trips_by_hour (generate gen N B) = trips_by_hour (loop gen N B)"
  "documents (generate gen N B) = documents (loop gen N B) @ batch_docs (loop gen N B)"
  by (simp_all add: generate_def Let_def documents_def insert_many_def)

lemma documents_generate:
  "documents (generate gen N B) = map (\<lambda>i. make_trip (gen i)) [0..<N]"
  by (simp add: generate_fields loop_documents)

lemma loop_batches:
  "(\<forall>b \<in> set (collection (loop gen n B)). length b = B \<and> b \<noteq> [])
   \<and> (0 < B \<longrightarrow> length (batch_docs (loop gen n B)) < B)"
proof (induction n)
  case 0
  then show ?case by (simp add: loop_0 initial_def)
next
  case (Suc n)
  then show ?case
    by (auto simp add: loop_Suc loop_body_def Let_def insert_many_def)
qed

lemma generate_batches:
  "(\<forall>b \<in> set (collection (generate gen N B)). b \<noteq> [] \<and> (0 < B \<longrightarrow> length b \<le> B))
   \<and> (\<forall>b \<in> set (butlast (collection (generate gen N B))). length b = B)"
  using loop_batches [of gen N B]
  by (auto simp add: generate_def Let_def insert_many_def butlast_append dest: in_set_butlastD)

lemma sample_strftime:
  "strftime_Ymd sample_ts = ''2026-11-03''" "strftime_A sample_ts = ''Tuesday''"
  by (simp_all add: sample_ts_def strftime_Ymd_def zero_pad_def digit_char_def strftime_A_def
        weekday_def toordinal_def days_before_year_def days_before_month_def is_leap_def)

lemma make_sample_trip: "make_trip (sample_draw c z q) = sample_trip c z q"
  by (simp add: make_trip_def sample_draw_def sample_trip_def sample_strftime Let_def)
     (simp add: sample_ts_def)

lemma sample_run_documents:
  "documents (generate (\<lambda>i. sample_draw ''Paris'' ''Zone A'' 2) 3 2)
     = [sample_trip ''Paris'' ''Zone A'' 2, sample_trip ''Paris'' ''Zone A'' 2,
        sample_trip ''Paris'' ''Zone A'' 2]"
  by (simp add: documents_generate make_sample_trip upt_rec numeral_3_eq_3)

lemma sample_run_batches:
  "map length (collection (generate (\<lambda>i. sample_draw ''Paris'' ''Zone A'' 2) 3 2)) = [2, 1]"
  by (simp add: generate_def loop_def loop_body_def Let_def insert_many_def initial_def upt_rec
        numeral_3_eq_3)

lemma trip_counts_daily_list:
  "trip_counts (daily_list df) = map (\<lambda>r. int (snd r)) (daily df)"
  by (simp add: trip_counts_def daily_list_def comp_def split_def)

lemma sum_list_int_counts: "sum_list (map (\<lambda>r. int (snd r)) rows) = int (sum_list (map snd rows))"
  by (induction rows) simp_all

lemma sum_daily: "sum_list (map snd (daily df)) = length df"
proof -
  have "sum_list (map snd (daily df)) = sum_list (map snd (group_count date df))"
    unfolding daily_def by (rule sum_list_permuted) simp
  then show ?thesis
    by (simp add: sum_group_count)
qed

text \<open>
  C7. For every target count \<open>N\<close> and batch size \<open>B\<close> the run writes exactly the \<open>N\<close>
  trips of its iterations, in order. No bulk write is empty; every bulk write but the last
  holds exactly \<open>B\<close> documents and, when \<open>B\<close> is positive, the last holds at most \<open>B\<close>.
  The trip counts of the daily artifact computed from the collection sum to \<open>N\<close>.
\<close>

theorem ingestion_round_trip:
  "documents (generate gen N B) = map (\<lambda>i. make_trip (gen i)) [0..<N]
   \<and> length (documents (generate gen N B)) = N
   \<and> (\<forall>b \<in> set (collection (generate gen N B)). b \<noteq> [] \<and> (0 < B \<longrightarrow> length b \<le> B))
   \<and> (\<forall>b \<in> set (butlast (collection (generate gen N B))). length b = B)
   \<and> sum_list (trip_counts (daily_list (documents (generate gen N B)))) = int N"
proof (intro conjI)
  show "documents (generate gen N B) = map (\<lambda>i. make_trip (gen i)) [0..<N]"
    by (rule documents_generate)
  then show "length (documents (generate gen N B)) = N"
    by simp
  then show "sum_list (trip_counts (daily_list (documents (generate gen N B)))) = int N"
    by (simp only: trip_counts_daily_list sum_list_int_counts sum_daily)
  show "\<forall>b \<in> set (collection (generate gen N B)). b \<noteq> [] \<and> (0 < B \<longrightarrow> length b \<le> B)"
    using generate_batches [of gen N B] by blast
  show "\<forall>b \<in> set (butlast (collection (generate gen N B))). length b = B"
    using generate_batches [of gen N B] by blast
qed

theorem ingestion_round_trip_witness:
  "map length (collection (generate (\<lambda>i. sample_draw ''Paris'' ''Zone A'' 2) 3 2)) = [2, 1]
   \<and> length (documents (generate (\<lambda>i. sample_draw ''Paris'' ''Zone A'' 2) 3 2)) = 3
   \<and> sum_list (trip_counts (daily_list
        (documents (generate (\<lambda>i. sample_draw ''Paris'' ''Zone A'' 2) 3 2)))) = 3"
proof -
  from ingestion_round_trip [of "\<lambda>i. sample_draw ''Paris'' ''Zone A'' 2" 3 2]
  have "length (documents (generate (\<lambda>i. sample_draw ''Paris'' ''Zone A'' 2) 3 2)) = 3"
    and "sum_list (trip_counts (daily_list
        (documents (generate (\<lambda>i. sample_draw ''Paris'' ''Zone A'' 2) 3 2)))) = int 3"
    by blast+
  then show ?thesis
    using sample_run_batches by simp
qed

text \<open>
  C9. One iteration of the loop adds one to the counter of its (city, date, hour) bucket
  and one to the counter of its (city, zone_start) bucket, and leaves every other bucket as
  it was. Starting from the truncated tables, after the run each zone bucket and each hour
  bucket holds the number of iterations that drew its key; so when all \<open>N\<close> trips have
  city \<open>X\<close> and start zone \<open>Y\<close>, the bucket \<open>(X, Y)\<close> holds exactly \<open>N\<close>.
\<close>

theorem counter_increments:
  "counter_value (trips_by_zone (loop_body B gen s i)) kz
     = counter_value (trips_by_zone s) kz
       + (if kz = (d_city (gen i), d_zone_start (gen i)) then 1 else 0)
   \<and> counter_value (trips_by_hour (loop_body B gen s i)) kh
     = counter_value (trips_by_hour s) kh
       + (if kh = (d_city (gen i), strftime_Ymd (d_ts (gen i)), dt_hour (d_ts (gen i)))
          then 1 else 0)
   \<and> counter_value (trips_by_zone (generate gen N B)) (X, Y)
     = int (length (filter (\<lambda>i. d_city (gen i) = X \<and> d_zone_start (gen i) = Y) [0..<N]))
   \<and> counter_value (trips_by_hour (generate gen N B)) (X, D, H)
     = int (length (filter (\<lambda>i. d_city (gen i) = X \<and> strftime_Ymd (d_ts (gen i)) = D
                                 \<and> dt_hour (d_ts (gen i)) = H) [0..<N]))
   \<and> ((\<forall>i < N. d_city (gen i) = X \<and> d_zone_start (gen i) = Y) \<longrightarrow>
        counter_value (trips_by_zone (generate gen N B)) (X, Y) = int N)"
proof (intro conjI impI)
  show "counter_value (trips_by_zone (loop_body B gen s i)) kz
     = counter_value (trips_by_zone s) kz
       + (if kz = (d_city (gen i), d_zone_start (gen i)) then 1 else 0)"
    by (simp add: loop_body_fields counter_value_increment)
  show "counter_value (trips_by_hour (loop_body B gen s i)) kh
     = counter_value (trips_by_hour s) kh
       + (if kh = (d_city (gen i), strftime_Ymd (d_ts (gen i)), dt_hour (d_ts (gen i)))
          then 1 else 0)"
    by (simp add: loop_body_fields counter_value_increment)
  show zone: "counter_value (trips_by_zone (generate gen N B)) (X, Y)
     = int (length (filter (\<lambda>i. d_city (gen i) = X \<and> d_zone_start (gen i) = Y) [0..<N]))"
    by (simp add: generate_fields loop_zone_counter)
  show "counter_value (trips_by_hour (generate gen N B)) (X, D, H)
     = int (length (filter (\<lambda>i. d_city (gen i) = X \<and> strftime_Ymd (d_ts (gen i)) = D
                                 \<and> dt_hour (d_ts (gen i)) = H) [0..<N]))"
    by (simp add: generate_fields loop_hour_counter)
  show "counter_value (trips_by_zone (generate gen N B)) (X, Y) = int N"
    if "\<forall>i < N. d_city (gen i) = X \<and> d_zone_start (gen i) = Y"
  proof -
    have "filter (\<lambda>i. d_city (gen i) = X \<and> d_zone_start (gen i) = Y) [0..<N] = [0..<N]"
      using that by (simp add: filter_id_conv)
    then show ?thesis
      by (simp add: zone)
  qed
qed

theorem counter_increments_witness:
  "counter_value (trips_by_zone (generate (\<lambda>i. sample_draw ''Paris'' ''Zone A'' 2) 4 3))
       (''Paris'', ''Zone A'') = 4
   \<and> counter_value (trips_by_zone (generate (\<lambda>i. sample_draw ''Paris'' ''Zone A'' 2) 4 3))
       (''Paris'', ''Zone B'') = 0
   \<and> counter_value (trips_by_hour (generate (\<lambda>i. sample_draw ''Paris'' ''Zone A'' 2) 4 3))
       (''Paris'', ''2026-11-03'', 9) = 4"
  using counter_increments
      [of 3 "\<lambda>i. sample_draw ''Paris'' ''Zone A'' 2" initial 0 "(''Paris'', ''Zone A'')"
          "(''Paris'', ''2026-11-03'', 9)" 4 "''Paris''" "''Zone A''" "''2026-11-03''" 9]
    counter_increments
      [of 3 "\<lambda>i. sample_draw ''Paris'' ''Zone A'' 2" initial 0 "(''Paris'', ''Zone A'')"
          "(''Paris'', ''2026-11-03'', 9)" 4 "''Paris''" "''Zone B''" "''2026-11-03''" 9]
  by (simp add: sample_draw_def sample_strftime) (simp add: sample_ts_def)

section \<open>Derived fields\<close>

lemma make_trip_consistent:
  "hour (make_trip d) = dt_hour (timestamp (make_trip d))"
  "date (make_trip d) = strftime_Ymd (timestamp (make_trip d))"
  "day_of_week (make_trip d) = strftime_A (timestamp (make_trip d))"
  by (simp_all add: make_trip_def Let_def)

lemma group_key_occurs:
  assumes "r \<in> set (group_count key df)"
  shows "\<exists>t \<in> set df. fst r = key t"
proof -
  obtain k n where r: "r = (k, n)"
    by (cases r)
  with assms have "k \<in> key ` set df"
    by (simp add: group_count_member)
  with r show ?thesis
    by auto
qed

text \<open>
  C8. Every trip the run writes carries the hour, the date string and the weekday name of
  its own timestamp (an hour below 24 for a timestamp Python can hold). The aggregator
  groups on the stored fields without recomputing them, so every date of the daily
  artifact, every hour of the hourly artifact and every weekday of the weekday artifact
  is the one of the timestamp of a stored trip.
\<close>

theorem derived_fields_consistent:
  "(\<forall>t \<in> set (documents (generate gen N B)).
       hour t = dt_hour (timestamp t) \<and> date t = strftime_Ymd (timestamp t)
       \<and> day_of_week t = strftime_A (timestamp t)
       \<and> (valid_datetime (timestamp t) \<longrightarrow> hour t < 24))
   \<and> (\<forall>r \<in> set (daily (documents (generate gen N B))).
         \<exists>t \<in> set (documents (generate gen N B)). fst r = strftime_Ymd (timestamp t))
   \<and> (\<forall>r \<in> set (rush (documents (generate gen N B))).
         \<exists>t \<in> set (documents (generate gen N B)). fst r = dt_hour (timestamp t))
   \<and> (\<forall>r \<in> set (by_day (documents (generate gen N B))).
         \<exists>t \<in> set (documents (generate gen N B)). snd (fst r) = strftime_A (timestamp t))"
proof -
  let ?docs = "documents (generate gen N B)"
  have stored: "hour t = dt_hour (timestamp t) \<and> date t = strftime_Ymd (timestamp t)
      \<and> day_of_week t = strftime_A (timestamp t)" if "t \<in> set ?docs" for t
    using that by (auto simp add: documents_generate make_trip_consistent)
  have "\<exists>t \<in> set ?docs. fst r = strftime_Ymd (timestamp t)" if "r \<in> set (daily ?docs)" for r
    using that group_key_occurs [of r date ?docs] stored by (auto simp add: daily_def)
  moreover have "\<exists>t \<in> set ?docs. fst r = dt_hour (timestamp t)" if "r \<in> set (rush ?docs)" for r
    using that group_key_occurs [of r hour ?docs] stored by (auto simp add: rush_def)
  moreover have "\<exists>t \<in> set ?docs. snd (fst r) = strftime_A (timestamp t)"
    if "r \<in> set (by_day ?docs)" for r
    using that group_key_occurs [of r "\<lambda>t. (city t, day_of_week t)" ?docs] stored
    by (auto simp add: by_day_def)
  moreover have "\<forall>t \<in> set ?docs. hour t = dt_hour (timestamp t)
       \<and> date t = strftime_Ymd (timestamp t) \<and> day_of_week t = strftime_A (timestamp t)
       \<and> (valid_datetime (timestamp t) \<longrightarrow> hour t < 24)"
    using stored by (auto simp add: valid_datetime_def)
  ultimately show ?thesis
    by blast
qed

theorem derived_fields_consistent_witness:
  "sample_trip ''Paris'' ''Zone A'' 2
       \<in> set (documents (generate (\<lambda>i. sample_draw ''Paris'' ''Zone A'' 2) 3 2))
   \<and> valid_datetime (timestamp (sample_trip ''Paris'' ''Zone A'' 2))
   \<and> hour (sample_trip ''Paris'' ''Zone A'' 2) < 24
   \<and> date (sample_trip ''Paris'' ''Zone A'' 2)
       = strftime_Ymd (timestamp (sample_trip ''Paris'' ''Zone A'' 2))
   \<and> day_of_week (sample_trip ''Paris'' ''Zone A'' 2)
       = strftime_A (timestamp (sample_trip ''Paris'' ''Zone A'' 2))
   \<and> daily (documents (generate (\<lambda>i. sample_draw ''Paris'' ''Zone A'' 2) 3 2))
       = [(''2026-11-03'', 3)]"
proof -
  have member: "sample_trip ''Paris'' ''Zone A'' 2
       \<in> set (documents (generate (\<lambda>i. sample_draw ''Paris'' ''Zone A'' 2) 3 2))"
    by (simp add: sample_run_documents)
  have valid: "valid_datetime (timestamp (sample_trip ''Paris'' ''Zone A'' 2))"
    by (simp add: sample_trip_def sample_ts_def valid_datetime_def days_in_month_def is_leap_def)
  have rows: "daily (documents (generate (\<lambda>i. sample_draw ''Paris'' ''Zone A'' 2) 3 2))
       = [(''2026-11-03'', 3)]"
    by (simp add: sample_run_documents daily_def order_by_def group_count_def group_by_def
          sample_trip_def)
  from derived_fields_consistent [of "\<lambda>i. sample_draw ''Paris'' ''Zone A'' 2" 3 2] member valid
  have "hour (sample_trip ''Paris'' ''Zone A'' 2) < 24
      \<and> date (sample_trip ''Paris'' ''Zone A'' 2)
          = strftime_Ymd (timestamp (sample_trip ''Paris'' ''Zone A'' 2))
      \<and> day_of_week (sample_trip ''Paris'' ''Zone A'' 2)
          = strftime_A (timestamp (sample_trip ''Paris'' ''Zone A'' 2))"
    by blast
  with member valid rows show ?thesis
    by blast
qed

end
